theory Spec2Isabelle
  imports Complex_Main "HOL-Library.Word"
begin

section \<open>Machine types\<close>

text \<open>
  Go's \<open>uint64\<close> is a 64-bit word: \<open>+\<close>, \<open>-\<close> and \<open>*\<close> wrap around, \<open>div\<close> is the
  unsigned division, \<open><\<close> the unsigned order. Go's \<open>int\<close> is modelled by \<open>int\<close>: the
  only \<open>int\<close> values of the program are the usage ceilings, which lie in [1, 100].
\<close>

type_synonym u64 = "64 word"

subsection \<open>float64\<close>

text \<open>
  A finite \<open>float64\<close> is the real number it denotes. Every arithmetic operation of
  IEEE 754 binary64 returns the exact result rounded to 53 significant bits, to nearest
  with ties to even; \<open>f64_round\<close> is that rounding. The exponent range is not modelled
  (no overflow to infinity, no subnormal numbers): the percentages, ceilings and
  counters of this program stay far inside it. Comparisons of \<open>float64\<close> values are
  exact, so they are the comparisons of the reals.
\<close>

text \<open>The number of binary digits of a natural number.\<close>

fun bit_length :: "nat \<Rightarrow> nat" where
  "bit_length n = (if n = 0 then 0 else Suc (bit_length (n div 2)))"

declare bit_length.simps [simp del]

text \<open>The binary exponent of \<open>x > 0\<close>: the \<open>e\<close> with \<open>2 powi e \<le> x < 2 powi (e + 1)\<close>.\<close>

definition binexp :: "real \<Rightarrow> int" where
  "binexp x = (if 1 \<le> x then int (bit_length (nat \<lfloor>x\<rfloor>)) - 1
               else - int (bit_length (nat (\<lceil>1 / x\<rceil> - 1))))"

definition round_half_even :: "real \<Rightarrow> int" where
  "round_half_even y =
     (let f = \<lfloor>y\<rfloor>; d = y - of_int f
      in if d < 1 / 2 then f
         else if 1 / 2 < d then f + 1
         else if even f then f else f + 1)"

definition f64_round :: "real \<Rightarrow> real" where
  "f64_round x =
     (if x = 0 then 0
      else let ulp = 2 powi (binexp \<bar>x\<bar> - 52)
           in sgn x * of_int (round_half_even (\<bar>x\<bar> / ulp)) * ulp)"

definition f64_mul :: "real \<Rightarrow> real \<Rightarrow> real" where
  "f64_mul x y = f64_round (x * y)"

definition f64_add :: "real \<Rightarrow> real \<Rightarrow> real" where
  "f64_add x y = f64_round (x + y)"

definition f64_sub :: "real \<Rightarrow> real \<Rightarrow> real" where
  "f64_sub x y = f64_round (x - y)"

text \<open>A decimal literal of the source, such as \<open>1.001\<close>, is the nearest \<open>float64\<close>.\<close>

definition f64_lit :: "real \<Rightarrow> real" where
  "f64_lit x = f64_round x"

text \<open>The conversions \<open>float64(n)\<close> of a \<open>uint64\<close> and of an \<open>int\<close>.\<close>

definition float64_of_uint64 :: "u64 \<Rightarrow> real" where
  "float64_of_uint64 n = f64_round (real (unat n))"

definition float64_of_int :: "int \<Rightarrow> real" where
  "float64_of_int n = f64_round (real_of_int n)"

text \<open>
  The conversion \<open>uint64(x)\<close> of a \<open>float64\<close> drops the fraction. When the truncated
  value does not fit \<open>uint64\<close> the Go specification leaves the result to the
  implementation: \<open>outOfRange\<close> is the implementation's answer, a parameter of
  everything that converts.
\<close>

definition uint64_of_float64 :: "(real \<Rightarrow> u64) \<Rightarrow> real \<Rightarrow> u64" where
  "uint64_of_float64 outOfRange x =
     (if - 1 < x \<and> x < 2 ^ 64 then of_nat (nat \<lfloor>x\<rfloor>) else outOfRange x)"

text \<open>
  One implementation, to instantiate the parameter: it answers \<open>2 ^ 63\<close>, the
  pattern 0x8000000000000000 that the conversion instructions of amd64 (the target of
  the repository's build script) return for a value they cannot represent.
\<close>

definition amd64OutOfRange :: "real \<Rightarrow> u64" where
  "amd64OutOfRange x = 2 ^ 63"

text \<open>The conversion \<open>int(x)\<close> of a \<open>float64\<close> truncates towards zero.\<close>

definition int_of_float64 :: "real \<Rightarrow> int" where
  "int_of_float64 x = (if 0 \<le> x then \<lfloor>x\<rfloor> else \<lceil>x\<rceil>)"

section \<open>The CPU load engine (CPUController)\<close>

text \<open>
  Of the controller's fields only \<open>count\<close>, the number of busy iterations between two
  sleeps of a worker, is read and written by AdjustCountRandom; the worker pool
  (\<open>ctx\<close>, \<open>cancel\<close>, \<open>wg\<close>, \<open>mu\<close>) is not modelled. The atomic load and store of
  \<open>count\<close> are a read and a write of the field.
\<close>

record CPUController =
  count :: u64

definition initCount :: u64 where
  "initCount = 10000"

definition cpuController0 :: CPUController where
  "cpuController0 = \<lparr>count = initCount\<rparr>"

definition AdjustCountRandom ::
    "(real \<Rightarrow> u64) \<Rightarrow> bool \<Rightarrow> CPUController \<Rightarrow> (bool \<times> bool \<times> u64) \<times> CPUController" where
  "AdjustCountRandom outOfRange shouldIncrease cc =
     (let currentCount = count cc;
          newCount =
            (if shouldIncrease
             then uint64_of_float64 outOfRange
                    (f64_mul (float64_of_uint64 currentCount) (f64_lit (1001 / 1000)))
             else let n = uint64_of_float64 outOfRange
                            (f64_mul (float64_of_uint64 currentCount) (f64_lit (999 / 1000)))
                  in if n < 1 then 1 else n)
      in ((True, shouldIncrease, newCount), cc\<lparr>count := newCount\<rparr>))"

definition GetCount :: "CPUController \<Rightarrow> u64" where
  "GetCount cc = count cc"

text \<open>
  A finite sequence of AdjustCountRandom calls: for each call, the value it returned
  and the controller after it.
\<close>

fun traceCount ::
    "(real \<Rightarrow> u64) \<Rightarrow> bool list \<Rightarrow> CPUController \<Rightarrow> (u64 \<times> CPUController) list" where
  "traceCount outOfRange [] cc = []"
| "traceCount outOfRange (b # bs) cc =
     (let ((success, direction, newCount), cc') = AdjustCountRandom outOfRange b cc
      in (newCount, cc') # traceCount outOfRange bs cc')"

section \<open>The memory load engine (MemoryController)\<close>

text \<open>
  \<open>buffer [][]byte\<close> is a list of blocks, a block a list of bytes. The lock \<open>mu\<close> only
  serialises the calls and is left out: every method below runs to completion on the
  state it is given.
\<close>

type_synonym block = "8 word list"

record MemoryController =
  buffer :: "block list"
  totalMemory :: u64

definition blockSize :: u64 where
  "blockSize = 1024 * 1024"

text \<open>\<open>make([]byte, blockSize)\<close> followed by \<open>buf[j] = byte(j % 256)\<close> for every index.\<close>

definition newBlock :: block where
  "newBlock = map (\<lambda>j. of_nat (j mod 256)) [0..<unat blockSize]"

definition getCurrentProgramMemory :: "MemoryController \<Rightarrow> u64" where
  "getCurrentProgramMemory mc = of_nat (length (buffer mc)) * blockSize"

text \<open>The loop \<open>for i := uint64(0); i < blocks; i++\<close> of allocateMemory: one append per round.\<close>

fun appendBlocks :: "nat \<Rightarrow> block list \<Rightarrow> block list" where
  "appendBlocks 0 buf = buf"
| "appendBlocks (Suc n) buf = appendBlocks n (buf @ [newBlock])"

definition allocateMemory :: "u64 \<Rightarrow> MemoryController \<Rightarrow> MemoryController" where
  "allocateMemory bytes mc =
     (let blocks = (bytes + blockSize - 1) div blockSize
      in mc\<lparr>buffer := appendBlocks (unat blocks) (buffer mc)\<rparr>)"

definition releaseMemory :: "u64 \<Rightarrow> MemoryController \<Rightarrow> MemoryController" where
  "releaseMemory bytes mc =
     (let blocks = (bytes + blockSize - 1) div blockSize;
          blocks = (if blocks > of_nat (length (buffer mc))
                    then of_nat (length (buffer mc)) else blocks)
      in if blocks > 0
         then mc\<lparr>buffer := take (length (buffer mc) - unat blocks) (buffer mc)\<rparr>
         else mc)"

definition adjustTo :: "u64 \<Rightarrow> MemoryController \<Rightarrow> u64 \<times> MemoryController" where
  "adjustTo targetBytes mc =
     (let currentBytes = getCurrentProgramMemory mc;
          mc' = (if targetBytes > currentBytes
                 then allocateMemory (targetBytes - currentBytes) mc
                 else if targetBytes < currentBytes
                 then releaseMemory (currentBytes - targetBytes) mc
                 else mc)
      in (getCurrentProgramMemory mc', mc'))"

text \<open>
  AdjustMemoryRandom returns (success, direction, actual bytes) and the new state.
\<close>

definition AdjustMemoryRandom ::
    "bool \<Rightarrow> MemoryController \<Rightarrow> (bool \<times> bool \<times> u64) \<times> MemoryController" where
  "AdjustMemoryRandom shouldIncrease mc =
     (let currentProgramBytes = getCurrentProgramMemory mc;
          adjustBytes = totalMemory mc div 1000;
          targetProgramBytes =
            (if shouldIncrease then currentProgramBytes + adjustBytes
             else if currentProgramBytes > adjustBytes
             then currentProgramBytes - adjustBytes
             else 0);
          (actualBytes, mc') = adjustTo targetProgramBytes mc
      in ((True, shouldIncrease, actualBytes), mc'))"

definition SetTotalMemory :: "u64 \<Rightarrow> MemoryController \<Rightarrow> MemoryController" where
  "SetTotalMemory tm mc = mc\<lparr>totalMemory := tm\<rparr>"

definition GetCurrentMemory :: "MemoryController \<Rightarrow> u64" where
  "GetCurrentMemory mc = getCurrentProgramMemory mc"

text \<open>\<open>var memoryController = &MemoryController{}\<close>: no block, total memory 0.\<close>

definition memoryController0 :: MemoryController where
  "memoryController0 = \<lparr>buffer = [], totalMemory = 0\<rparr>"

text \<open>A finite sequence of AdjustMemoryRandom calls, one direction per call.\<close>

fun runMemory :: "bool list \<Rightarrow> MemoryController \<Rightarrow> MemoryController" where
  "runMemory [] mc = mc"
| "runMemory (b # bs) mc = runMemory bs (snd (AdjustMemoryRandom b mc))"

text \<open>
  What an increase step asks for, in bytes (0.1% of the total memory), and the number of
  whole blocks that covers it.
\<close>

definition stepBytes :: "u64 \<Rightarrow> nat" where
  "stepBytes tm = unat (tm div 1000)"

definition stepBlocks :: "u64 \<Rightarrow> nat" where
  "stepBlocks tm = (stepBytes tm + 1048575) div 1048576"

definition increases :: "bool list \<Rightarrow> nat" where
  "increases bs = length (filter (\<lambda>b. b) bs)"

section \<open>The controller (main.go)\<close>

definition defaultPeakUsage :: int where
  "defaultPeakUsage = 40"

definition hardPeakLimit :: real where
  "hardPeakLimit = 70"

definition minPeakUsage :: int where
  "minPeakUsage = 5"

subsection \<open>Configuration: getPeakUsage\<close>

text \<open>
  The environment is a map from names to values; \<open>os.Getenv\<close> returns the empty string
  for a name that is not set.
\<close>

type_synonym environ = "string \<rightharpoonup> string"

definition Getenv :: "environ \<Rightarrow> string \<Rightarrow> string" where
  "Getenv env name = (case env name of None \<Rightarrow> [] | Some v \<Rightarrow> v)"

text \<open>
  \<open>strconv.Atoi\<close> of the Go standard library, after its documentation: an optional
  sign, then one or more decimal digits and nothing else; an error (here \<open>None\<close>) for
  any other string and for a value outside the 64-bit range of \<open>int\<close>.
\<close>

definition is_digit :: "char \<Rightarrow> bool" where
  "is_digit c = (48 \<le> (of_char c :: nat) \<and> (of_char c :: nat) \<le> 57)"

fun digits_value :: "nat \<Rightarrow> string \<Rightarrow> nat option" where
  "digits_value acc [] = Some acc"
| "digits_value acc (c # cs) =
     (if is_digit c then digits_value (10 * acc + (of_char c - 48)) cs else None)"

definition Atoi :: "string \<Rightarrow> int option" where
  "Atoi s =
     (let (neg, ds) = (case s of
                         [] \<Rightarrow> (False, [])
                       | c # cs \<Rightarrow> if c = CHR ''-'' then (True, cs)
                                   else if c = CHR ''+'' then (False, cs)
                                   else (False, s))
      in if ds = [] then None
         else case digits_value 0 ds of
                None \<Rightarrow> None
              | Some n \<Rightarrow>
                  (let v = (if neg then - int n else int n)
                   in if - (2 ^ 63) \<le> v \<and> v < 2 ^ 63 then Some v else None))"

text \<open>
  getPeakUsage reads \<open>P\<close>, then \<open>p\<close>. The warnings it logs on the way do not change
  what it returns and are left out.
\<close>

definition getPeakUsage :: "environ \<Rightarrow> int" where
  "getPeakUsage env =
     (let v = Getenv env ''P'';
          v = (if v = [] then Getenv env ''p'' else v)
      in if v = [] then defaultPeakUsage
         else case Atoi v of
                None \<Rightarrow> defaultPeakUsage
              | Some peakUsage \<Rightarrow>
                  if peakUsage < 1 \<or> peakUsage > 100 then defaultPeakUsage
                  else if peakUsage < minPeakUsage then minPeakUsage
                  else peakUsage)"

subsection \<open>The target: isNightTime and calculateExpectedUsage\<close>

text \<open>
  Both functions read the clock; the hour of the day in UTC, \<open>time.Now().UTC().Hour()\<close>,
  is their parameter \<open>hour\<close>.
\<close>

definition isNightTime :: "nat \<Rightarrow> bool" where
  "isNightTime hour = (hour \<ge> 16 \<and> hour < 20)"

definition calculateExpectedUsage :: "nat \<Rightarrow> int \<Rightarrow> real" where
  "calculateExpectedUsage hour userPeakUsage =
     (let expectedUsage =
            (if isNightTime hour then float64_of_int userPeakUsage
             else f64_mul (float64_of_int userPeakUsage) (f64_lit (8 / 10)))
      in if expectedUsage > hardPeakLimit then hardPeakLimit else expectedUsage)"

subsection \<open>The probability tables\<close>

definition abs_float64 :: "real \<Rightarrow> real" where
  "abs_float64 x = (if x < 0 then - x else x)"

definition calculateAdjustProbability :: "real \<Rightarrow> real" where
  "calculateAdjustProbability diff =
     (if diff > 5 then f64_lit (90 / 100)
      else if diff \<ge> 2 then f64_lit (70 / 100)
      else f64_lit (60 / 100))"

definition calculateDirectionProbability :: "real \<Rightarrow> real \<Rightarrow> real" where
  "calculateDirectionProbability diff expectedUsage =
     (let absDiff = abs_float64 diff
      in if diff < 0
         then (if absDiff > 50 then f64_lit (90 / 100)
               else if absDiff > 20 then f64_lit (80 / 100)
               else if absDiff > 10 then f64_lit (70 / 100)
               else if absDiff > 5 then f64_lit (65 / 100)
               else if absDiff \<ge> 2 then f64_lit (60 / 100)
               else f64_lit (55 / 100))
         else (if absDiff > 50 then f64_lit (10 / 100)
               else if absDiff > 20 then f64_lit (20 / 100)
               else if absDiff > 10 then f64_lit (30 / 100)
               else if absDiff > 5 then f64_lit (35 / 100)
               else if absDiff \<ge> 2 then f64_lit (40 / 100)
               else f64_lit (45 / 100)))"

text \<open>
  The tables as the specification words them: a step function of the magnitude
  \<open>\<bar>current - target\<bar>\<close> for acting at all, and for the direction a step function of
  the magnitude under the target (\<open>diff < 0\<close>), mirrored at or above it.
\<close>

definition spec_adjust_probability :: "real \<Rightarrow> real" where
  "spec_adjust_probability magnitude =
     (if magnitude > 5 then f64_lit (90 / 100)
      else if 2 \<le> magnitude \<and> magnitude \<le> 5 then f64_lit (70 / 100)
      else f64_lit (60 / 100))"

definition spec_under_target :: "real \<Rightarrow> real" where
  "spec_under_target magnitude =
     (if magnitude > 50 then f64_lit (90 / 100)
      else if magnitude > 20 then f64_lit (80 / 100)
      else if magnitude > 10 then f64_lit (70 / 100)
      else if magnitude > 5 then f64_lit (65 / 100)
      else if magnitude \<ge> 2 then f64_lit (60 / 100)
      else f64_lit (55 / 100))"

definition spec_over_target :: "real \<Rightarrow> real" where
  "spec_over_target magnitude =
     (if magnitude > 50 then f64_lit (10 / 100)
      else if magnitude > 20 then f64_lit (20 / 100)
      else if magnitude > 10 then f64_lit (30 / 100)
      else if magnitude > 5 then f64_lit (35 / 100)
      else if magnitude \<ge> 2 then f64_lit (40 / 100)
      else f64_lit (45 / 100))"

definition spec_direction_probability :: "real \<Rightarrow> real" where
  "spec_direction_probability diff =
     (if diff < 0 then spec_under_target \<bar>diff\<bar> else spec_over_target \<bar>diff\<bar>)"

subsection \<open>The state of the process\<close>

record SystemStats =
  CPUPercent :: real
  MemoryPercent :: real
  TotalMemory :: u64
  UsedMemory :: u64

text \<open>
  What the process writes to its log, one event per call of the logger: the warning
  that a resource is over the hard peak, and the three outcomes of a controller pass
  (forced decrease; skip; adjustment with the increase probability and the direction
  taken), each with the resource and the measured percentage; and the drift of the
  ceiling (origin, old value, new value, lower end of the range).
\<close>

datatype resource = Memory | CPU

datatype event =
    HardPeakExceeded resource real
  | Forced resource real
  | Skipped resource real
  | Adjusted resource real real bool
  | PeakUsageUpdated int int int real

text \<open>
  The global variables of the process, the random source and the log. The random source
  is the sequence of values \<open>rand.Float64()\<close> returns, with the position of the next one.
\<close>

record World =
  peakUsageOrigin :: int
  peakUsage :: int
  cpuController :: CPUController
  memoryController :: MemoryController
  randSource :: "nat \<Rightarrow> real"
  randPos :: nat
  events :: "event list"

definition Float64 :: "World \<Rightarrow> real \<times> World" where
  "Float64 w = (randSource w (randPos w), w\<lparr>randPos := Suc (randPos w)\<rparr>)"

definition logEvent :: "event \<Rightarrow> World \<Rightarrow> World" where
  "logEvent e w = w\<lparr>events := events w @ [e]\<rparr>"

definition shouldAdjust :: "real \<Rightarrow> World \<Rightarrow> bool \<times> World" where
  "shouldAdjust probability w = (let (r, w') = Float64 w in (r < probability, w'))"

subsection \<open>One controller pass per resource\<close>

definition adjustMemory :: "SystemStats \<Rightarrow> real \<Rightarrow> World \<Rightarrow> World" where
  "adjustMemory stats expectedUsage w =
     (let currentPercent = MemoryPercent stats
      in if currentPercent > hardPeakLimit
         then (let w1 = logEvent (HardPeakExceeded Memory currentPercent) w;
                   ((success, direction, actual), mc) =
                      AdjustMemoryRandom False (memoryController w1);
                   w2 = w1\<lparr>memoryController := mc\<rparr>
               in if success then logEvent (Forced Memory currentPercent) w2 else w2)
         else (let diff = f64_sub currentPercent expectedUsage;
                   adjustProb = calculateAdjustProbability (abs_float64 diff);
                   (adjust, w1) = shouldAdjust adjustProb w
               in if \<not> adjust then logEvent (Skipped Memory currentPercent) w1
                  else (let increaseProb = calculateDirectionProbability diff expectedUsage;
                            (r, w2) = Float64 w1;
                            shouldIncrease = (r < increaseProb);
                            ((success, increased, actual), mc) =
                               AdjustMemoryRandom shouldIncrease (memoryController w2);
                            w3 = w2\<lparr>memoryController := mc\<rparr>
                        in if success
                           then logEvent (Adjusted Memory currentPercent increaseProb increased) w3
                           else w3)))"

definition adjustCPU :: "(real \<Rightarrow> u64) \<Rightarrow> SystemStats \<Rightarrow> real \<Rightarrow> World \<Rightarrow> World" where
  "adjustCPU outOfRange stats expectedUsage w =
     (let currentPercent = CPUPercent stats
      in if currentPercent > hardPeakLimit
         then (let w1 = logEvent (HardPeakExceeded CPU currentPercent) w;
                   ((success, direction, newCount), cc) =
                      AdjustCountRandom outOfRange False (cpuController w1);
                   w2 = w1\<lparr>cpuController := cc\<rparr>
               in if success then logEvent (Forced CPU currentPercent) w2 else w2)
         else (let diff = f64_sub currentPercent expectedUsage;
                   adjustProb = calculateAdjustProbability (abs_float64 diff);
                   (adjust, w1) = shouldAdjust adjustProb w
               in if \<not> adjust then logEvent (Skipped CPU currentPercent) w1
                  else (let increaseProb = calculateDirectionProbability diff expectedUsage;
                            (r, w2) = Float64 w1;
                            shouldIncrease = (r < increaseProb);
                            ((success, increasedCount, newCount), cc) =
                               AdjustCountRandom outOfRange shouldIncrease (cpuController w2);
                            w3 = w2\<lparr>cpuController := cc\<rparr>
                        in if success
                           then logEvent (Adjusted CPU currentPercent increaseProb increasedCount) w3
                           else w3)))"

definition adjustResources :: "(real \<Rightarrow> u64) \<Rightarrow> SystemStats \<Rightarrow> real \<Rightarrow> World \<Rightarrow> World" where
  "adjustResources outOfRange stats expectedUsage w =
     adjustCPU outOfRange stats expectedUsage (adjustMemory stats expectedUsage w)"

subsection \<open>The drift of the ceiling: updatePeakUsage\<close>

definition updatePeakUsage :: "World \<Rightarrow> World" where
  "updatePeakUsage w =
     (let oldPeakUsage = peakUsage w;
          minValue = f64_mul (float64_of_int (peakUsageOrigin w)) (f64_lit (2 / 10));
          maxValue = float64_of_int (peakUsageOrigin w);
          (r, w1) = Float64 w;
          newValue = f64_add minValue (f64_mul r (f64_sub maxValue minValue));
          p = int_of_float64 newValue;
          p = (if p < int_of_float64 minValue then int_of_float64 minValue else p);
          p = (if p < minPeakUsage then minPeakUsage else p)
      in logEvent (PeakUsageUpdated (peakUsageOrigin w) oldPeakUsage p minValue)
           (w1\<lparr>peakUsage := p\<rparr>))"

text \<open>
  For the proofs about updatePeakUsage: the range of the drift for one origin, as the
  function computes it, and what a check of one origin establishes (the lower end lies
  in [0, origin], the origin is converted exactly, and the lower end plus the width of
  the range does not round above the origin).
\<close>

definition drift_ok :: "int \<Rightarrow> bool" where
  "drift_ok origin =
     (let minValue = f64_mul (float64_of_int origin) (f64_lit (2 / 10));
          maxValue = float64_of_int origin;
          width = f64_sub maxValue minValue
      in 0 \<le> minValue \<and> minValue \<le> maxValue \<and> maxValue = of_int origin
         \<and> f64_add minValue width \<le> maxValue)"

section \<open>Facts about float64 rounding\<close>

lemma bit_length_pos: "0 < n \<Longrightarrow> 0 < bit_length n"
  by (subst bit_length.simps) simp

lemma bit_length_bounds: "0 < n \<Longrightarrow> 2 ^ (bit_length n - 1) \<le> n \<and> n < 2 ^ bit_length n"
proof (induction n rule: bit_length.induct)
  case (1 n)
  show ?case
  proof (cases "n div 2 = 0")
    case True
    with 1(2) have "n = 1" by presburger
    then show ?thesis by (simp add: bit_length.simps)
  next
    case False
    define b where "b = bit_length (n div 2)"
    have bn: "bit_length n = Suc b"
      using 1(2) by (subst bit_length.simps) (simp add: b_def)
    have b0: "0 < b" using False by (simp add: b_def bit_length_pos)
    from 1(1) 1(2) False have ih: "2 ^ (b - 1) \<le> n div 2" "n div 2 < 2 ^ b"
      by (simp_all add: b_def)
    have "(2::nat) ^ b = 2 * 2 ^ (b - 1)" using b0 by (cases b) simp_all
    with ih(1) have lo: "2 ^ b \<le> n" by linarith
    from ih(2) have "n < 2 * 2 ^ b" by linarith
    with lo show ?thesis by (simp add: bn)
  qed
qed

lemma binexp_bounds:
  assumes "0 < x"
  shows "2 powi binexp x \<le> x \<and> x < 2 powi (binexp x + 1)"
proof (cases "1 \<le> x")
  case True
  define n where "n = nat \<lfloor>x\<rfloor>"
  have n1: "0 < n" using True by (simp add: n_def)
  have nx: "real n \<le> x" "x < real n + 1" using True by (simp_all add: n_def)
  define b where "b = bit_length n"
  have b0: "0 < b" using n1 by (simp add: b_def bit_length_pos)
  have bb: "2 ^ (b - 1) \<le> n" "n < 2 ^ b" using bit_length_bounds[OF n1] by (simp_all add: b_def)
  have e: "binexp x = int (b - 1)" using True b0 by (simp add: binexp_def n_def b_def)
  have e1: "binexp x + 1 = int b" using e b0 by simp
  have p1: "(2::real) powi binexp x = 2 ^ (b - 1)" unfolding e by simp
  have p2: "(2::real) powi (binexp x + 1) = 2 ^ b" unfolding e1 by simp
  have "real (2 ^ (b - 1)) \<le> real n"
    using bb(1) by (simp only: of_nat_le_iff)
  then have r1: "(2::real) ^ (b - 1) \<le> real n" by simp
  have "Suc n \<le> 2 ^ b" using bb(2) by simp
  then have "real (Suc n) \<le> real (2 ^ b)" by (simp only: of_nat_le_iff)
  then have r2: "real n + 1 \<le> 2 ^ b" by simp
  show ?thesis unfolding p1 p2 using r1 r2 nx by linarith
next
  case False
  then have x1: "x < 1" by simp
  define y where "y = 1 / x"
  have y1: "1 < y" using assms x1 by (simp add: y_def)
  define m where "m = nat (\<lceil>y\<rceil> - 1)"
  have "2 \<le> \<lceil>y\<rceil>" using y1 by linarith
  then have m1: "0 < m" by (simp add: m_def)
  have my: "real m < y" "y \<le> real m + 1" using y1 unfolding m_def by linarith+
  define k where "k = bit_length m"
  have k0: "0 < k" using m1 by (simp add: k_def bit_length_pos)
  have kb: "2 ^ (k - 1) \<le> m" "m < 2 ^ k" using bit_length_bounds[OF m1] by (simp_all add: k_def)
  have e: "binexp x = - int k" using False by (simp add: binexp_def y_def m_def k_def)
  have e1: "binexp x + 1 = - int (k - 1)" using e k0 by simp
  have p1: "(2::real) powi binexp x = 1 / 2 ^ k" unfolding e by (simp add: power_int_minus_divide)
  have p2: "(2::real) powi (binexp x + 1) = 1 / 2 ^ (k - 1)"
    unfolding e1 by (simp add: power_int_minus_divide)
  have "real (2 ^ (k - 1)) \<le> real m"
    using kb(1) by (simp only: of_nat_le_iff)
  then have r1: "(2::real) ^ (k - 1) \<le> real m" by simp
  have "Suc m \<le> 2 ^ k" using kb(2) by simp
  then have "real (Suc m) \<le> real (2 ^ k)" by (simp only: of_nat_le_iff)
  then have r2: "real m + 1 \<le> 2 ^ k" by simp
  have "y \<le> 2 ^ k" using r2 my(2) by linarith
  then have lo: "1 / 2 ^ k \<le> x" using assms by (simp add: y_def field_simps)
  have "2 ^ (k - 1) < y" using r1 my(1) by linarith
  then have hi: "x < 1 / 2 ^ (k - 1)" using assms by (simp add: y_def field_simps)
  show ?thesis unfolding p1 p2 using lo hi by simp
qed

lemma round_half_even_lower: "\<lfloor>y\<rfloor> \<le> round_half_even y"
  by (simp add: round_half_even_def Let_def)

lemma round_half_even_upper: "round_half_even y \<le> \<lfloor>y\<rfloor> + 1"
  by (simp add: round_half_even_def Let_def)

lemma round_half_even_of_int: "round_half_even (of_int k) = k"
  by (simp add: round_half_even_def)

lemma round_half_even_mono:
  assumes "a \<le> b"
  shows "round_half_even a \<le> round_half_even b"
proof (cases "\<lfloor>a\<rfloor> < \<lfloor>b\<rfloor>")
  case True
  have "round_half_even a \<le> \<lfloor>a\<rfloor> + 1" by (rule round_half_even_upper)
  also have "\<dots> \<le> \<lfloor>b\<rfloor>" using True by simp
  also have "\<dots> \<le> round_half_even b" by (rule round_half_even_lower)
  finally show ?thesis .
next
  case False
  with floor_mono[OF assms] have "\<lfloor>a\<rfloor> = \<lfloor>b\<rfloor>" by simp
  then show ?thesis using assms by (simp add: round_half_even_def Let_def)
qed

lemma binexp_mono:
  assumes "0 < x" "x \<le> y"
  shows "binexp x \<le> binexp y"
proof (rule ccontr)
  assume "\<not> binexp x \<le> binexp y"
  then have "binexp y + 1 \<le> binexp x" by simp
  then have "(2::real) powi (binexp y + 1) \<le> 2 powi binexp x"
    by (simp add: power_int_increasing)
  moreover have "y < 2 powi (binexp y + 1)" using binexp_bounds[of y] assms by simp
  moreover have "2 powi binexp x \<le> x" using binexp_bounds[OF assms(1)] by simp
  ultimately show False using assms(2) by linarith
qed

lemma binexp_unique:
  assumes "0 < x" "2 powi e \<le> x" "x < 2 powi (e + 1)"
  shows "binexp x = e"
proof (rule antisym)
  show "binexp x \<le> e"
  proof (rule ccontr)
    assume "\<not> binexp x \<le> e"
    then have "e + 1 \<le> binexp x" by simp
    then have "(2::real) powi (e + 1) \<le> 2 powi binexp x" by (simp add: power_int_increasing)
    with binexp_bounds[OF assms(1)] assms(3) show False by linarith
  qed
  show "e \<le> binexp x"
  proof (rule ccontr)
    assume "\<not> e \<le> binexp x"
    then have "binexp x + 1 \<le> e" by simp
    then have "(2::real) powi (binexp x + 1) \<le> 2 powi e" by (simp add: power_int_increasing)
    with binexp_bounds[OF assms(1)] assms(2) show False by linarith
  qed
qed

lemma ulp_scale: "2 ^ 52 * (2::real) powi (e - 52) = 2 powi e"
proof -
  have eq: "e = 52 + (e - 52)" by simp
  have "(2::real) powi (52 + (e - 52)) = 2 powi 52 * 2 powi (e - 52)"
    by (rule power_int_add) simp
  then have "(2::real) powi e = 2 powi 52 * 2 powi (e - 52)"
    using eq by simp
  then show ?thesis by simp
qed

lemma ulp_scale2: "2 ^ 53 * (2::real) powi (e - 52) = 2 powi (e + 1)"
proof -
  have eq: "e + 1 = 53 + (e - 52)" by simp
  have "(2::real) powi (53 + (e - 52)) = 2 powi 53 * 2 powi (e - 52)"
    by (rule power_int_add) simp
  then have "(2::real) powi (e + 1) = 2 powi 53 * 2 powi (e - 52)"
    unfolding eq[symmetric] .
  then show ?thesis by simp
qed

lemma f64_round_pos:
  "0 < x \<Longrightarrow>
     f64_round x = of_int (round_half_even (x / 2 powi (binexp x - 52))) * 2 powi (binexp x - 52)"
  by (simp add: f64_round_def Let_def)

lemma mantissa_bounds:
  assumes "0 < x"
  shows "2 ^ 52 \<le> round_half_even (x / 2 powi (binexp x - 52))
         \<and> round_half_even (x / 2 powi (binexp x - 52)) \<le> 2 ^ 53"
proof -
  define u :: real where "u = 2 powi (binexp x - 52)"
  have u0: "0 < u" by (simp add: u_def)
  have lo: "2 ^ 52 * u \<le> x"
    unfolding u_def ulp_scale using binexp_bounds[OF assms] by blast
  have hi: "x < 2 ^ 53 * u"
    unfolding u_def ulp_scale2 using binexp_bounds[OF assms] by blast
  have "2 ^ 52 \<le> x / u" using lo u0 by (simp add: field_simps)
  then have b1: "of_int (2 ^ 52) \<le> x / u" by simp
  have "x / u \<le> 2 ^ 53" using hi u0 by (simp add: field_simps)
  then have b2: "x / u \<le> of_int (2 ^ 53)" by simp
  have "round_half_even (of_int (2 ^ 52)) \<le> round_half_even (x / u)"
    by (rule round_half_even_mono[OF b1])
  moreover have "round_half_even (x / u) \<le> round_half_even (of_int (2 ^ 53))"
    by (rule round_half_even_mono[OF b2])
  ultimately show ?thesis
    unfolding round_half_even_of_int u_def by blast
qed

lemma mantissa_scaled:
  fixes m :: int and u :: real
  assumes "0 < u" "2 ^ 52 \<le> m" "m \<le> 2 ^ 53"
  shows "2 ^ 52 * u \<le> of_int m * u" "of_int m * u \<le> 2 ^ 53 * u"
proof -
  have "real_of_int (2 ^ 52) \<le> of_int m" using assms(2) by (simp only: of_int_le_iff)
  then have a: "2 ^ 52 \<le> real_of_int m" by simp
  have "real_of_int m \<le> of_int (2 ^ 53)" using assms(3) by (simp only: of_int_le_iff)
  then have b: "real_of_int m \<le> 2 ^ 53" by simp
  show "2 ^ 52 * u \<le> of_int m * u"
    by (rule mult_right_mono[OF a less_imp_le[OF assms(1)]])
  show "of_int m * u \<le> 2 ^ 53 * u"
    by (rule mult_right_mono[OF b less_imp_le[OF assms(1)]])
qed

lemma f64_round_bounds:
  assumes "0 < x"
  shows "2 powi binexp x \<le> f64_round x \<and> f64_round x \<le> 2 powi (binexp x + 1)"
proof -
  define u :: real where "u = 2 powi (binexp x - 52)"
  define m where "m = round_half_even (x / u)"
  have u0: "0 < u" by (simp add: u_def)
  have m: "2 ^ 52 \<le> m" "m \<le> 2 ^ 53"
    using mantissa_bounds[OF assms] unfolding m_def u_def by blast+
  have f: "f64_round x = of_int m * u" using assms by (simp add: f64_round_pos m_def u_def)
  have s1: "2 powi binexp x = 2 ^ 52 * u" unfolding u_def ulp_scale ..
  have s2: "2 powi (binexp x + 1) = 2 ^ 53 * u" unfolding u_def ulp_scale2 ..
  show ?thesis unfolding f s1 s2 using mantissa_scaled[OF u0 m] by blast
qed

lemma f64_round_zero: "f64_round 0 = 0"
  by (simp add: f64_round_def)

lemma f64_round_minus: "f64_round (- x) = - f64_round x"
  by (simp add: f64_round_def Let_def sgn_minus)

lemma f64_round_pos_pos: "0 < x \<Longrightarrow> 0 < f64_round x"
proof -
  assume "0 < x"
  then have "2 powi binexp x \<le> f64_round x" using f64_round_bounds by simp
  moreover have "(0::real) < 2 powi binexp x" by simp
  ultimately show ?thesis by linarith
qed

lemma f64_round_nonneg: "0 \<le> x \<Longrightarrow> 0 \<le> f64_round x"
  using f64_round_pos_pos[of x] by (cases "x = 0") (simp_all add: f64_round_zero less_eq_real_def)

lemma f64_round_mono_pos:
  assumes "0 < x" "x \<le> y"
  shows "f64_round x \<le> f64_round y"
proof (cases "binexp x = binexp y")
  case True
  define u :: real where "u = 2 powi (binexp x - 52)"
  have u0: "0 < u" by (simp add: u_def)
  have y0: "0 < y" using assms by simp
  have "x / u \<le> y / u" using assms(2) u0 by (simp add: divide_right_mono)
  then have "round_half_even (x / u) \<le> round_half_even (y / u)" by (rule round_half_even_mono)
  then have "real_of_int (round_half_even (x / u)) \<le> of_int (round_half_even (y / u))"
    by (simp only: of_int_le_iff)
  then have "of_int (round_half_even (x / u)) * u \<le> of_int (round_half_even (y / u)) * u"
    using u0 by simp
  then show ?thesis
    using assms(1) y0 True by (simp add: f64_round_pos u_def)
next
  case False
  have y0: "0 < y" using assms by simp
  from False binexp_mono[OF assms] have "binexp x + 1 \<le> binexp y" by simp
  then have "(2::real) powi (binexp x + 1) \<le> 2 powi binexp y" by (simp add: power_int_increasing)
  with f64_round_bounds[OF assms(1)] f64_round_bounds[OF y0] show ?thesis by linarith
qed

lemma f64_round_mono:
  assumes "0 \<le> x" "x \<le> y"
  shows "f64_round x \<le> f64_round y"
proof (cases "x = 0")
  case True
  then show ?thesis using assms f64_round_nonneg[of y] by (simp add: f64_round_zero)
next
  case False
  then show ?thesis using assms f64_round_mono_pos[of x y] by simp
qed

lemma f64_round_ge_one:
  assumes "1 \<le> x"
  shows "1 \<le> f64_round x"
proof -
  have x0: "0 < x" using assms by simp
  have "0 < nat \<lfloor>x\<rfloor>" using assms by simp
  then have "0 < bit_length (nat \<lfloor>x\<rfloor>)" by (rule bit_length_pos)
  then have "0 \<le> binexp x" using assms by (simp add: binexp_def)
  then have "(1::real) \<le> 2 powi binexp x" by simp
  with f64_round_bounds[OF x0] show ?thesis by linarith
qed

lemma f64_round_exact:
  assumes "0 < x" "binexp x = e" "x = of_int k * 2 powi (e - 52)"
  shows "f64_round x = x"
proof -
  have "x / 2 powi (e - 52) = of_int k"
    using assms(3) by (simp add: field_simps)
  then have "f64_round x = of_int k * 2 powi (e - 52)"
    using assms(1) by (simp add: f64_round_pos round_half_even_of_int assms(2))
  then show ?thesis using assms(3) by simp
qed

lemma f64_round_idem_pos:
  assumes "0 < x"
  shows "f64_round (f64_round x) = f64_round x"
proof -
  define e where "e = binexp x"
  define u :: real where "u = 2 powi (e - 52)"
  define m where "m = round_half_even (x / u)"
  have u0: "0 < u" by (simp add: u_def)
  have m: "2 ^ 52 \<le> m" "m \<le> 2 ^ 53"
    using mantissa_bounds[OF assms] unfolding m_def u_def e_def by blast+
  have f: "f64_round x = of_int m * u"
    using assms by (simp add: f64_round_pos m_def u_def e_def)
  have fpos: "0 < f64_round x" by (rule f64_round_pos_pos[OF assms])
  show ?thesis
  proof (cases "m = 2 ^ 53")
    case True
    have "f64_round x = 2 ^ 53 * u" unfolding f True by simp
    then have v: "f64_round x = 2 powi (e + 1)" unfolding u_def ulp_scale2 .
    have "(2::real) powi (e + 1) < 2 powi (e + 1 + 1)"
      by (rule power_int_strict_increasing) simp_all
    then have be: "binexp (f64_round x) = e + 1"
      using fpos by (intro binexp_unique) (simp_all add: v)
    have "f64_round x = 2 ^ 52 * 2 powi (e + 1 - 52)" unfolding ulp_scale by (rule v)
    then have "f64_round x = of_int (2 ^ 52) * 2 powi (e + 1 - 52)" by simp
    then show ?thesis by (rule f64_round_exact[OF fpos be])
  next
    case False
    with m have m2: "m < 2 ^ 53" by simp
    have "real_of_int m < of_int (2 ^ 53)" using m2 by (simp only: of_int_less_iff)
    then have "real_of_int m < 2 ^ 53" by simp
    then have "of_int m * u < 2 ^ 53 * u" using u0 by simp
    then have hi: "f64_round x < 2 powi (e + 1)" unfolding f u_def ulp_scale2 .
    have "2 ^ 52 * u \<le> of_int m * u" by (rule mantissa_scaled(1)[OF u0 m])
    then have lo: "2 powi e \<le> f64_round x" unfolding f u_def ulp_scale .
    have be: "binexp (f64_round x) = e" by (rule binexp_unique[OF fpos lo hi])
    have "f64_round x = of_int m * 2 powi (e - 52)" by (simp add: f u_def)
    then show ?thesis by (rule f64_round_exact[OF fpos be])
  qed
qed

lemma f64_round_idem: "f64_round (f64_round x) = f64_round x"
proof -
  consider "x = 0" | "0 < x" | "x < 0" by linarith
  then show ?thesis
  proof cases
    case 1
    then show ?thesis by (simp add: f64_round_zero)
  next
    case 2
    then show ?thesis by (rule f64_round_idem_pos)
  next
    case 3
    then have "f64_round (f64_round (- x)) = f64_round (- x)" by (intro f64_round_idem_pos) simp
    then show ?thesis by (simp add: f64_round_minus)
  qed
qed

section \<open>Facts about the CPU load engine\<close>

lemmas f64_eval =
  f64_round_def f64_mul_def f64_add_def f64_sub_def f64_lit_def float64_of_uint64_def
  float64_of_int_def binexp_def round_half_even_def bit_length.simps Let_def

lemma word_one_le_iff: "1 \<le> w \<longleftrightarrow> w \<noteq> 0" for w :: u64
proof
  assume "1 \<le> w"
  then show "w \<noteq> 0" by auto
next
  assume "w \<noteq> 0"
  then have "0 < unat w" by (simp add: unat_gt_0)
  then have "unat (1::u64) \<le> unat w" by simp
  then show "1 \<le> w" by (simp only: word_le_nat_alt)
qed

lemma unat_of_nat_u64: "n < 2 ^ 64 \<Longrightarrow> unat (of_nat n :: u64) = n"
  by (rule of_nat_inverse) simp_all

lemma one_le_real_unat: "1 \<le> c \<Longrightarrow> 1 \<le> real (unat c)" for c :: u64
proof -
  assume "1 \<le> c"
  then have "unat (1::u64) \<le> unat c" by (simp only: word_le_nat_alt)
  then have "1 \<le> unat c" by simp
  then have "real 1 \<le> real (unat c)" by (simp only: of_nat_le_iff)
  then show ?thesis by (simp only: of_nat_1)
qed

lemma uint64_of_float64_ge_one:
  assumes "\<And>x. 2 ^ 64 \<le> x \<Longrightarrow> 1 \<le> outOfRange x" "1 \<le> y"
  shows "1 \<le> uint64_of_float64 outOfRange y"
proof (cases "y < 2 ^ 64")
  case True
  define n where "n = nat \<lfloor>y\<rfloor>"
  have n1: "1 \<le> n" using assms(2) by (simp add: n_def le_nat_iff)
  have "real n \<le> y" using assms(2) by (simp add: n_def)
  then have "real n < 2 ^ 64" using True by linarith
  then have "real n < real (2 ^ 64)" by simp
  then have n2: "n < 2 ^ 64" by (simp only: of_nat_less_iff)
  have "unat (of_nat n :: u64) = n" using n2 by (rule unat_of_nat_u64)
  then have "(of_nat n :: u64) \<noteq> 0" using n1 by auto
  then have "1 \<le> (of_nat n :: u64)" by (simp add: word_one_le_iff)
  then show ?thesis using True assms(2) by (simp add: uint64_of_float64_def n_def)
next
  case False
  then show ?thesis using assms by (simp add: uint64_of_float64_def)
qed

lemma f64_lit_1001_ge_one: "1 \<le> f64_lit (1001 / 1000)"
  unfolding f64_lit_def by (rule f64_round_ge_one) simp

lemma increased_product_ge_one:
  assumes "1 \<le> c"
  shows "1 \<le> f64_mul (float64_of_uint64 c) (f64_lit (1001 / 1000))"
proof -
  have "1 \<le> real (unat c)" using assms by (rule one_le_real_unat)
  then have "1 \<le> float64_of_uint64 c"
    unfolding float64_of_uint64_def by (rule f64_round_ge_one)
  then have "1 * 1 \<le> float64_of_uint64 c * f64_lit (1001 / 1000)"
    using f64_lit_1001_ge_one by (intro mult_mono) simp_all
  then have "1 \<le> float64_of_uint64 c * f64_lit (1001 / 1000)" by simp
  then show ?thesis unfolding f64_mul_def by (rule f64_round_ge_one)
qed

lemma AdjustCountRandom_returns:
  "fst (AdjustCountRandom outOfRange b cc)
     = (True, b, count (snd (AdjustCountRandom outOfRange b cc)))"
  by (simp add: AdjustCountRandom_def Let_def)

lemma AdjustCountRandom_decrease_ge_one:
  "1 \<le> count (snd (AdjustCountRandom outOfRange False cc))"
  by (simp add: AdjustCountRandom_def Let_def word_one_le_iff)

lemma AdjustCountRandom_ge_one:
  assumes "\<And>x. 2 ^ 64 \<le> x \<Longrightarrow> 1 \<le> outOfRange x" "1 \<le> count cc"
  shows "1 \<le> count (snd (AdjustCountRandom outOfRange b cc))"
proof (cases b)
  case True
  have "1 \<le> uint64_of_float64 outOfRange
               (f64_mul (float64_of_uint64 (count cc)) (f64_lit (1001 / 1000)))"
    using assms(1) increased_product_ge_one[OF assms(2)] by (rule uint64_of_float64_ge_one)
  then show ?thesis using True by (simp add: AdjustCountRandom_def Let_def)
next
  case False
  then show ?thesis using AdjustCountRandom_decrease_ge_one by simp
qed

lemma traceCount_ge_one:
  assumes "\<And>x. 2 ^ 64 \<le> x \<Longrightarrow> 1 \<le> outOfRange x" "1 \<le> count cc"
  shows "list_all (\<lambda>(v, cc'). 1 \<le> v \<and> 1 \<le> count cc') (traceCount outOfRange bs cc)"
  using assms(2)
proof (induction bs arbitrary: cc)
  case Nil
  then show ?case by simp
next
  case (Cons b bs)
  let ?r = "AdjustCountRandom outOfRange b cc"
  have c: "1 \<le> count (snd ?r)" using assms(1) Cons.prems by (rule AdjustCountRandom_ge_one)
  have v: "fst ?r = (True, b, count (snd ?r))" by (rule AdjustCountRandom_returns)
  have "list_all (\<lambda>(v, cc'). 1 \<le> v \<and> 1 \<le> count cc') (traceCount outOfRange bs (snd ?r))"
    using c by (rule Cons.IH)
  then show ?case using c v by (simp add: case_prod_unfold Let_def)
qed

section \<open>Facts about the memory load engine\<close>

lemma length_appendBlocks: "length (appendBlocks n buf) = length buf + n"
  by (induction n arbitrary: buf) auto

lemma appendBlocks_replicate: "appendBlocks n buf = buf @ replicate n newBlock"
  by (induction n arbitrary: buf) (auto simp: replicate_app_Cons_same)

lemma step_le: "unat ((tm::u64) div 1000) \<le> 18446744073709551"
proof -
  have "unat tm < 2 ^ 64" using unsigned_less[of tm, where 'a=nat] by simp
  then show ?thesis by (simp add: unat_div)
qed

lemma alloc_blocks: "unat (((tm::u64) div 1000 + blockSize - 1) div blockSize) = stepBlocks tm"
proof -
  have a: "unat (tm div 1000 + 1048575) = unat (tm div 1000) + 1048575"
    using step_le[of tm] by (simp add: unat_word_ariths)
  have b: "tm div 1000 + blockSize - 1 = tm div 1000 + 1048575"
    by (simp add: blockSize_def)
  have c: "unat blockSize = 1048576"
    by (simp add: blockSize_def)
  show ?thesis
    unfolding b stepBlocks_def stepBytes_def
      unat_div[of "tm div 1000 + 1048575" blockSize] a c ..
qed

lemma dvd_cur: "1048576 dvd unat (getCurrentProgramMemory mc)"
proof -
  have "unat (getCurrentProgramMemory mc) = (unat (of_nat (length (buffer mc)) :: u64) * 1048576) mod 2 ^ 64"
    by (simp add: getCurrentProgramMemory_def blockSize_def unat_word_ariths)
  moreover have "(1048576::nat) dvd 2 ^ 64" by simp
  ultimately show ?thesis by (simp add: dvd_mod)
qed

lemma cur_le: "unat (getCurrentProgramMemory mc) \<le> length (buffer mc) * 1048576"
proof -
  have "unat (getCurrentProgramMemory mc) = (unat (of_nat (length (buffer mc)) :: u64) * 1048576) mod 2 ^ 64"
    by (simp add: getCurrentProgramMemory_def blockSize_def unat_word_ariths)
  also have "\<dots> \<le> unat (of_nat (length (buffer mc)) :: u64) * 1048576" by simp
  also have "\<dots> \<le> length (buffer mc) * 1048576"
    by (simp add: unat_of_nat)
  finally show ?thesis .
qed

lemma total_allocate: "totalMemory (allocateMemory n mc) = totalMemory mc"
  by (simp add: allocateMemory_def Let_def)

lemma total_release: "totalMemory (releaseMemory n mc) = totalMemory mc"
  by (simp add: releaseMemory_def Let_def)

lemma length_release: "length (buffer (releaseMemory n mc)) \<le> length (buffer mc)"
  by (simp add: releaseMemory_def Let_def)

lemma total_adjust: "totalMemory (snd (AdjustMemoryRandom b mc)) = totalMemory mc"
  by (simp add: AdjustMemoryRandom_def adjustTo_def Let_def total_allocate total_release)

lemma length_adjust_dec: "length (buffer (snd (AdjustMemoryRandom False mc))) \<le> length (buffer mc)"
proof -
  have "cur - adj \<le> cur" if "adj < cur" for cur adj :: u64
    using that by (simp add: word_sub_le less_imp_le)
  then have "\<not> cur < cur - adj" if "adj < cur" for cur adj :: u64
    using that by (simp add: not_less)
  then show ?thesis
    by (auto simp: AdjustMemoryRandom_def adjustTo_def Let_def length_release allocateMemory_def)
qed

lemma length_adjust_inc:
  "length (buffer (snd (AdjustMemoryRandom True mc))) \<le> length (buffer mc) + stepBlocks (totalMemory mc)"
proof -
  have "length (buffer (allocateMemory (totalMemory mc div 1000) mc))
        = length (buffer mc) + stepBlocks (totalMemory mc)"
    by (simp add: allocateMemory_def Let_def length_appendBlocks alloc_blocks)
  moreover have "length (buffer (releaseMemory n mc)) \<le> length (buffer mc) + stepBlocks (totalMemory mc)" for n
    using length_release[of n mc] by simp
  ultimately show ?thesis
    by (simp add: AdjustMemoryRandom_def adjustTo_def Let_def)
qed

lemma total_run: "totalMemory (runMemory bs mc) = totalMemory mc"
  by (induction bs arbitrary: mc) (simp_all add: total_adjust)

lemma length_run:
  "length (buffer (runMemory bs mc))
     \<le> length (buffer mc) + increases bs * stepBlocks (totalMemory mc)"
proof (induction bs arbitrary: mc)
  case Nil
  then show ?case by (simp add: increases_def)
next
  case (Cons b bs)
  let ?mc = "snd (AdjustMemoryRandom b mc)"
  have s: "length (buffer ?mc) \<le> length (buffer mc) + (if b then stepBlocks (totalMemory mc) else 0)"
    using length_adjust_inc[of mc] length_adjust_dec[of mc] by (cases b) simp_all
  have "length (buffer (runMemory bs ?mc))
          \<le> length (buffer ?mc) + increases bs * stepBlocks (totalMemory mc)"
    using Cons.IH[of ?mc] by (simp add: total_adjust)
  with s show ?case by (cases b) (simp_all add: increases_def)
qed

section \<open>Facts about the controller\<close>

lemma f64_round_of_nat:
  assumes "n \<le> 2 ^ 53"
  shows "f64_round (real n) = real n"
proof (cases "n = 0")
  case True
  then show ?thesis by (simp add: f64_round_zero)
next
  case False
  define x where "x = real n"
  define e where "e = binexp x"
  have x0: "0 < x" using False by (simp add: x_def)
  have lo: "2 powi e \<le> x" using binexp_bounds[OF x0] by (simp add: e_def)
  have "real n \<le> real (2 ^ 53)" using assms by (simp only: of_nat_le_iff)
  then have hi: "x \<le> 2 ^ 53" by (simp add: x_def)
  show ?thesis
  proof (cases "e \<le> 52")
    case True
    define j where "j = nat (52 - e)"
    define k where "k = int n * 2 ^ j"
    have "e - 52 = - int j" using True by (simp add: j_def)
    then have u: "(2::real) powi (e - 52) = 1 / 2 ^ j"
      by (simp add: power_int_minus_divide)
    have "x = of_int k * 2 powi (e - 52)" unfolding u by (simp add: k_def x_def)
    with x0 e_def[symmetric] have "f64_round x = x" by (rule f64_round_exact)
    then show ?thesis by (simp add: x_def)
  next
    case False
    then have "53 \<le> e" by simp
    then have "(2::real) powi 53 \<le> 2 powi e" by (intro power_int_increasing) simp_all
    with lo hi have "x = 2 ^ 53" by simp
    moreover have "f64_round (2 ^ 53) = 2 ^ 53"
      by (simp add: f64_round_def binexp_def round_half_even_def bit_length.simps Let_def)
    ultimately show ?thesis by (simp add: x_def)
  qed
qed

lemma float64_of_int_exact:
  assumes "\<bar>c\<bar> \<le> 2 ^ 53"
  shows "float64_of_int c = real_of_int c"
proof (cases "0 \<le> c")
  case True
  then have "nat c \<le> 2 ^ 53" using assms by (simp add: nat_le_iff)
  then have "f64_round (real (nat c)) = real (nat c)" by (rule f64_round_of_nat)
  then show ?thesis using True by (simp add: float64_of_int_def)
next
  case False
  then have "nat (- c) \<le> 2 ^ 53" using assms by (simp add: nat_le_iff)
  then have "f64_round (real (nat (- c))) = real (nat (- c))" by (rule f64_round_of_nat)
  then have "f64_round (- real_of_int c) = - real_of_int c" using False by simp
  then show ?thesis by (simp add: float64_of_int_def f64_round_minus)
qed

lemma abs_float64_abs: "abs_float64 x = \<bar>x\<bar>"
  by (simp add: abs_float64_def)

lemma Atoi_empty: "Atoi [] = None"
  by (simp add: Atoi_def)

section \<open>Facts about the drift of the ceiling\<close>

lemma drift_ok_low: "list_all drift_ok [5..36]"
  by (simp add: upto_rec_numeral drift_ok_def f64_eval)

lemma drift_ok_mid: "list_all drift_ok [37..68]"
  by (simp add: upto_rec_numeral drift_ok_def f64_eval)

lemma drift_ok_high: "list_all drift_ok [69..100]"
  by (simp add: upto_rec_numeral drift_ok_def f64_eval)

lemma drift_ok_all:
  assumes "5 \<le> origin" "origin \<le> 100"
  shows "drift_ok origin"
proof -
  have "origin \<in> set [5..36] \<or> origin \<in> set [37..68] \<or> origin \<in> set [69..100]"
    unfolding set_upto atLeastAtMost_iff using assms by linarith
  then show ?thesis
    using drift_ok_low drift_ok_mid drift_ok_high unfolding list_all_iff by blast
qed

lemma drift_sample_bounds:
  assumes "drift_ok origin" "0 \<le> r" "r < 1"
  defines "minValue \<equiv> f64_mul (float64_of_int origin) (f64_lit (2 / 10))"
  defines "maxValue \<equiv> float64_of_int origin"
  defines "newValue \<equiv> f64_add minValue (f64_mul r (f64_sub maxValue minValue))"
  shows "minValue \<le> newValue \<and> newValue \<le> maxValue"
proof -
  define width where "width = f64_sub maxValue minValue"
  define part where "part = f64_mul r width"
  have ok: "0 \<le> minValue" "minValue \<le> maxValue" "f64_add minValue width \<le> maxValue"
    using assms(1) unfolding drift_ok_def minValue_def maxValue_def width_def Let_def by blast+
  have w0: "0 \<le> width"
    unfolding width_def f64_sub_def using ok(2) by (intro f64_round_nonneg) simp
  have widem: "f64_round width = width"
    unfolding width_def f64_sub_def by (rule f64_round_idem)
  have midem: "f64_round minValue = minValue"
    unfolding minValue_def f64_mul_def by (rule f64_round_idem)
  have rw: "0 \<le> r * width" using assms(2) w0 by simp
  have "r * width \<le> 1 * width" using assms(3) w0 by (intro mult_right_mono) simp_all
  then have "r * width \<le> width" by simp
  with rw have "f64_round (r * width) \<le> f64_round width" by (rule f64_round_mono)
  then have p1: "part \<le> width" unfolding part_def f64_mul_def widem .
  have p0: "0 \<le> part" unfolding part_def f64_mul_def using rw by (rule f64_round_nonneg)
  have nv: "newValue = f64_round (minValue + part)"
    by (simp add: newValue_def part_def width_def f64_add_def)
  have "f64_round minValue \<le> f64_round (minValue + part)"
    using ok(1) p0 by (intro f64_round_mono) simp_all
  then have lo: "minValue \<le> newValue" unfolding nv midem .
  have "f64_round (minValue + part) \<le> f64_round (minValue + width)"
    using ok(1) p0 p1 by (intro f64_round_mono) simp_all
  then have "newValue \<le> f64_add minValue width" unfolding nv f64_add_def .
  with ok(3) have hi: "newValue \<le> maxValue" by linarith
  from lo hi show ?thesis by simp
qed

lemma peakUsage_updatePeakUsage:
  "peakUsage (updatePeakUsage w) =
     (let minValue = f64_mul (float64_of_int (peakUsageOrigin w)) (f64_lit (2 / 10));
          maxValue = float64_of_int (peakUsageOrigin w);
          newValue = f64_add minValue
                       (f64_mul (randSource w (randPos w)) (f64_sub maxValue minValue));
          p = int_of_float64 newValue;
          p = (if p < int_of_float64 minValue then int_of_float64 minValue else p)
      in if p < minPeakUsage then minPeakUsage else p)"
  by (simp add: updatePeakUsage_def Float64_def logEvent_def Let_def)

section \<open>Claims about the CPU load engine\<close>

text \<open>
  C3: starting from the initial intensity 10000, after every call of every finite
  sequence of AdjustCountRandom calls the stored intensity is at least 1, and so is the
  value the call returned. The conversion back to \<open>uint64\<close> is the implementation's
  where the product no longer fits (from \<open>2 ^ 64\<close> on); the statement holds for every
  implementation that does not answer 0 there.
\<close>

theorem C3_intensity_at_least_one:
  assumes "\<And>x. 2 ^ 64 \<le> x \<Longrightarrow> 1 \<le> outOfRange x"
  shows "list_all (\<lambda>(v, cc). 1 \<le> v \<and> 1 \<le> count cc)
           (traceCount outOfRange bs cpuController0)"
proof -
  have "1 \<le> count cpuController0"
    by (simp add: cpuController0_def initCount_def)
  with assms show ?thesis by (rule traceCount_ge_one)
qed

theorem C3_witness:
  "list_all (\<lambda>(v, cc). 1 \<le> v \<and> 1 \<le> count cc)
     (traceCount amd64OutOfRange [True, False, False] cpuController0)"
  by (rule C3_intensity_at_least_one) (simp add: amd64OutOfRange_def)

text \<open>
  C7, as stated, fails: the product is a \<open>float64\<close> product. The \<open>float64\<close> nearest to
  1.001 lies below 1.001, the product with 10000 is the \<open>float64\<close> just below 10010,
  and the truncation gives 10009.
\<close>

theorem C7_counterexample:
  "count (snd (AdjustCountRandom amd64OutOfRange True \<lparr>count = 10000\<rparr>)) \<noteq> 10010"
  by (simp add: AdjustCountRandom_def uint64_of_float64_def f64_eval)

text \<open>
  C7 (amended): AdjustCountRandom multiplies the intensity, converted to \<open>float64\<close>, by
  the \<open>float64\<close> constant 1.001 when increasing and 0.999 when decreasing, rounds the
  product to \<open>float64\<close> and truncates it to an unsigned integer; when decreasing it
  clamps the result to a floor of 1. It stores the result and returns it. From
  intensity 10000 an increase step yields 10009, and from intensity 1 a decrease step
  yields 1.
\<close>

theorem C7_adjust_count:
  "AdjustCountRandom outOfRange True cc =
     (let n = uint64_of_float64 outOfRange
                (f64_mul (float64_of_uint64 (count cc)) (f64_lit (1001 / 1000)))
      in ((True, True, n), cc\<lparr>count := n\<rparr>))
   \<and> AdjustCountRandom outOfRange False cc =
     (let n = max 1 (uint64_of_float64 outOfRange
                (f64_mul (float64_of_uint64 (count cc)) (f64_lit (999 / 1000))))
      in ((True, False, n), cc\<lparr>count := n\<rparr>))
   \<and> 1 \<le> count (snd (AdjustCountRandom outOfRange False cc))
   \<and> AdjustCountRandom outOfRange True \<lparr>count = 10000\<rparr> = ((True, True, 10009), \<lparr>count = 10009\<rparr>)
   \<and> AdjustCountRandom outOfRange False \<lparr>count = 1\<rparr> = ((True, False, 1), \<lparr>count = 1\<rparr>)"
proof -
  have a: "AdjustCountRandom outOfRange True cc =
     (let n = uint64_of_float64 outOfRange
                (f64_mul (float64_of_uint64 (count cc)) (f64_lit (1001 / 1000)))
      in ((True, True, n), cc\<lparr>count := n\<rparr>))"
    by (simp add: AdjustCountRandom_def Let_def)
  have b: "AdjustCountRandom outOfRange False cc =
     (let n = max 1 (uint64_of_float64 outOfRange
                (f64_mul (float64_of_uint64 (count cc)) (f64_lit (999 / 1000))))
      in ((True, False, n), cc\<lparr>count := n\<rparr>))"
    by (simp add: AdjustCountRandom_def Let_def max_def word_one_le_iff)
  have c: "AdjustCountRandom outOfRange True \<lparr>count = 10000\<rparr>
             = ((True, True, 10009), \<lparr>count = 10009\<rparr>)"
    by (simp add: AdjustCountRandom_def uint64_of_float64_def f64_eval)
  have d: "AdjustCountRandom outOfRange False \<lparr>count = 1\<rparr> = ((True, False, 1), \<lparr>count = 1\<rparr>)"
    by (simp add: AdjustCountRandom_def uint64_of_float64_def f64_eval)
  show ?thesis using a b c d AdjustCountRandom_decrease_ge_one by blast
qed


section \<open>Claims about the memory load engine\<close>

text \<open>
  C4, as stated, fails: an increase step appends whole blocks, so the balloon can exceed
  the bytes requested. With 8 GiB of total memory one increase requests 8589934 bytes
  and leaves a balloon of 9 blocks, 9437184 bytes.
\<close>

theorem C4_counterexample:
  "\<not> unat (GetCurrentMemory (runMemory [True] \<lparr>buffer = [], totalMemory = 8589934592\<rparr>))
       \<le> increases [True] * stepBytes 8589934592"
  by (simp add: GetCurrentMemory_def AdjustMemoryRandom_def adjustTo_def allocateMemory_def
      getCurrentProgramMemory_def blockSize_def Let_def appendBlocks_replicate
      increases_def stepBytes_def)

text \<open>
  C4 (amended): after every finite sequence of AdjustMemoryRandom calls on an empty
  balloon, with any fixed total memory, the balloon size is a multiple of the 1 MiB
  block size, and it never exceeds the bytes requested by the increase steps so far
  when each request (0.1% of the total memory) is rounded up to whole blocks.
\<close>

theorem C4_balloon_blocks:
  "1048576 dvd unat (GetCurrentMemory (runMemory bs \<lparr>buffer = [], totalMemory = tm\<rparr>))
   \<and> unat (GetCurrentMemory (runMemory bs \<lparr>buffer = [], totalMemory = tm\<rparr>))
       \<le> increases bs * (stepBlocks tm * 1048576)"
proof -
  let ?mc = "runMemory bs \<lparr>buffer = [], totalMemory = tm\<rparr>"
  have "length (buffer ?mc) \<le> increases bs * stepBlocks tm"
    using length_run[of bs "\<lparr>buffer = [], totalMemory = tm\<rparr>"] by simp
  then have "length (buffer ?mc) * 1048576 \<le> increases bs * stepBlocks tm * 1048576"
    by simp
  with cur_le[of ?mc] have "unat (getCurrentProgramMemory ?mc) \<le> increases bs * (stepBlocks tm * 1048576)"
    by (simp add: mult.assoc)
  with dvd_cur[of ?mc] show ?thesis by (simp add: GetCurrentMemory_def)
qed

text \<open>
  C6, as stated, fails: 0.1% of 10 GiB is 10737418 bytes, more than 10 blocks, so the
  balloon is not 10485760 bytes after the call.
\<close>

theorem C6_counterexample:
  "GetCurrentMemory (snd (AdjustMemoryRandom True \<lparr>buffer = [], totalMemory = 10 * 1024 * 1024 * 1024\<rparr>))
     \<noteq> 10485760"
  by (simp add: GetCurrentMemory_def AdjustMemoryRandom_def adjustTo_def allocateMemory_def
      getCurrentProgramMemory_def blockSize_def Let_def appendBlocks_replicate)

text \<open>
  C6 (amended): with 10 GiB of total memory and an empty balloon, AdjustMemoryRandom(true)
  requests 10737418 bytes (0.1% of the total, by integer division), appends the 11 whole
  blocks that cover them, and returns; GetCurrentMemory then reports 11534336 bytes.
\<close>

theorem C6_ten_gib_step:
  "stepBytes (10 * 1024 * 1024 * 1024) = 10737418
   \<and> AdjustMemoryRandom True \<lparr>buffer = [], totalMemory = 10 * 1024 * 1024 * 1024\<rparr>
       = ((True, True, 11534336),
          \<lparr>buffer = replicate 11 newBlock, totalMemory = 10 * 1024 * 1024 * 1024\<rparr>)
   \<and> GetCurrentMemory (snd (AdjustMemoryRandom True
         \<lparr>buffer = [], totalMemory = 10 * 1024 * 1024 * 1024\<rparr>)) = 11534336"
  by (simp add: GetCurrentMemory_def AdjustMemoryRandom_def adjustTo_def allocateMemory_def
      getCurrentProgramMemory_def blockSize_def Let_def appendBlocks_replicate stepBytes_def)

section \<open>Claims about the controller\<close>

text \<open>
  C1: in a controller pass over memory (adjustMemory) or over the CPU (adjustCPU), when
  the measured percentage is above the hard peak of 70 the controller logs the excess,
  makes the decrease step of the load engine (AdjustMemoryRandom(false),
  AdjustCountRandom(false)), logs the forced decrease and returns. The result depends
  neither on the target nor on the random source, of which no value is drawn.
\<close>

theorem C1_hard_override:
  "hardPeakLimit = 70
   \<and> (MemoryPercent stats > 70 \<longrightarrow>
        adjustMemory stats expectedUsage w =
          w\<lparr>memoryController := snd (AdjustMemoryRandom False (memoryController w)),
            events := events w @ [HardPeakExceeded Memory (MemoryPercent stats),
                                  Forced Memory (MemoryPercent stats)]\<rparr>)
   \<and> (CPUPercent stats > 70 \<longrightarrow>
        adjustCPU outOfRange stats expectedUsage w =
          w\<lparr>cpuController := snd (AdjustCountRandom outOfRange False (cpuController w)),
            events := events w @ [HardPeakExceeded CPU (CPUPercent stats),
                                  Forced CPU (CPUPercent stats)]\<rparr>)"
proof -
  have m: "adjustMemory stats expectedUsage w =
          w\<lparr>memoryController := snd (AdjustMemoryRandom False (memoryController w)),
            events := events w @ [HardPeakExceeded Memory (MemoryPercent stats),
                                  Forced Memory (MemoryPercent stats)]\<rparr>"
    if "MemoryPercent stats > 70"
    using that
    by (simp add: adjustMemory_def hardPeakLimit_def logEvent_def AdjustMemoryRandom_def
        Let_def case_prod_unfold)
  have c: "adjustCPU outOfRange stats expectedUsage w =
          w\<lparr>cpuController := snd (AdjustCountRandom outOfRange False (cpuController w)),
            events := events w @ [HardPeakExceeded CPU (CPUPercent stats),
                                  Forced CPU (CPUPercent stats)]\<rparr>"
    if "CPUPercent stats > 70"
    using that
    by (simp add: adjustCPU_def hardPeakLimit_def logEvent_def AdjustCountRandom_def
        Let_def case_prod_unfold)
  show ?thesis using m c by (simp add: hardPeakLimit_def)
qed

theorem C1_witness:
  "(70::real) < 143 / 2 \<and> (70::real) < 85
   \<and> adjustMemory \<lparr>CPUPercent = 85, MemoryPercent = 143 / 2,
                    TotalMemory = 8589934592, UsedMemory = 6141803233\<rparr> 32
        \<lparr>peakUsageOrigin = 40, peakUsage = 40, cpuController = \<lparr>count = 10000\<rparr>,
         memoryController = \<lparr>buffer = replicate 20 newBlock, totalMemory = 8589934592\<rparr>,
         randSource = (\<lambda>n. 0), randPos = 0, events = []\<rparr>
      = \<lparr>peakUsageOrigin = 40, peakUsage = 40, cpuController = \<lparr>count = 10000\<rparr>,
         memoryController = \<lparr>buffer = replicate 11 newBlock, totalMemory = 8589934592\<rparr>,
         randSource = (\<lambda>n. 0), randPos = 0,
         events = [HardPeakExceeded Memory (143 / 2), Forced Memory (143 / 2)]\<rparr>
   \<and> adjustCPU amd64OutOfRange \<lparr>CPUPercent = 85, MemoryPercent = 143 / 2,
                              TotalMemory = 8589934592, UsedMemory = 6141803233\<rparr> 32
        \<lparr>peakUsageOrigin = 40, peakUsage = 40, cpuController = \<lparr>count = 10000\<rparr>,
         memoryController = \<lparr>buffer = replicate 20 newBlock, totalMemory = 8589934592\<rparr>,
         randSource = (\<lambda>n. 0), randPos = 0, events = []\<rparr>
      = \<lparr>peakUsageOrigin = 40, peakUsage = 40, cpuController = \<lparr>count = 9990\<rparr>,
         memoryController = \<lparr>buffer = replicate 20 newBlock, totalMemory = 8589934592\<rparr>,
         randSource = (\<lambda>n. 0), randPos = 0,
         events = [HardPeakExceeded CPU 85, Forced CPU 85]\<rparr>"
  using C1_hard_override
    [of "\<lparr>CPUPercent = 85, MemoryPercent = 143 / 2,
          TotalMemory = 8589934592, UsedMemory = 6141803233\<rparr>" 32
        "\<lparr>peakUsageOrigin = 40, peakUsage = 40, cpuController = \<lparr>count = 10000\<rparr>,
         memoryController = \<lparr>buffer = replicate 20 newBlock, totalMemory = 8589934592\<rparr>,
         randSource = (\<lambda>n. 0), randPos = 0, events = []\<rparr>" amd64OutOfRange]
  by (simp add: AdjustMemoryRandom_def adjustTo_def releaseMemory_def allocateMemory_def
      getCurrentProgramMemory_def blockSize_def AdjustCountRandom_def uint64_of_float64_def
      f64_eval)

text \<open>
  C2: calculateExpectedUsage depends on the ceiling and on the night flag only (the hour
  enters through isNightTime, true from 16:00 to 20:00 UTC): in the night window it
  returns the ceiling as a \<open>float64\<close>, outside it the \<open>float64\<close> product of the
  ceiling and 0.8, in both cases clamped to at most 70. A ceiling of absolute value up
  to \<open>2 ^ 53\<close> is converted exactly. Ceiling 40 in the night window gives 40; ceiling
  90 outside it gives the product 72, clamped to 70.
\<close>

theorem C2_expected_usage:
  "calculateExpectedUsage hour c =
     min 70 (if isNightTime hour then float64_of_int c
             else f64_mul (float64_of_int c) (f64_lit (8 / 10)))
   \<and> calculateExpectedUsage hour c \<le> 70
   \<and> (isNightTime hour = isNightTime hour' \<longrightarrow>
        calculateExpectedUsage hour c = calculateExpectedUsage hour' c)
   \<and> (\<bar>c\<bar> \<le> 2 ^ 53 \<longrightarrow> float64_of_int c = real_of_int c)
   \<and> isNightTime 17 \<and> calculateExpectedUsage 17 40 = 40
   \<and> \<not> isNightTime 12 \<and> f64_mul (float64_of_int 90) (f64_lit (8 / 10)) = 72
   \<and> calculateExpectedUsage 12 90 = 70"
proof -
  have a: "calculateExpectedUsage hour c =
     min 70 (if isNightTime hour then float64_of_int c
             else f64_mul (float64_of_int c) (f64_lit (8 / 10)))"
    by (simp add: calculateExpectedUsage_def hardPeakLimit_def Let_def min_def)
  have b: "calculateExpectedUsage hour c \<le> 70"
    unfolding a by simp
  have d: "calculateExpectedUsage hour c = calculateExpectedUsage hour' c"
    if "isNightTime hour = isNightTime hour'"
    using that by (simp add: calculateExpectedUsage_def)
  have e: "isNightTime 17" "\<not> isNightTime 12"
    by (simp_all add: isNightTime_def)
  have f: "calculateExpectedUsage 17 40 = 40"
    by (simp add: calculateExpectedUsage_def isNightTime_def hardPeakLimit_def f64_eval)
  have g: "f64_mul (float64_of_int 90) (f64_lit (8 / 10)) = 72"
    by (simp add: f64_eval)
  have h: "calculateExpectedUsage 12 90 = 70"
    by (simp add: calculateExpectedUsage_def isNightTime_def hardPeakLimit_def f64_eval)
  show ?thesis using a b d e f g h float64_of_int_exact[of c] by blast
qed

theorem C2_witness:
  "isNightTime 16 = isNightTime 19 \<and> \<bar>55::int\<bar> \<le> 2 ^ 53
   \<and> calculateExpectedUsage 16 55 = calculateExpectedUsage 19 55
   \<and> calculateExpectedUsage 16 55 = 55
   \<and> float64_of_int 55 = 55"
proof -
  have n: "isNightTime 16 = isNightTime 19" by (simp add: isNightTime_def)
  have r: "\<bar>55::int\<bar> \<le> 2 ^ 53" by simp
  have "calculateExpectedUsage 16 55 = calculateExpectedUsage 19 55"
    using C2_expected_usage[of 16 55 19] n by blast
  moreover have f: "float64_of_int 55 = 55"
    using C2_expected_usage[of 16 55 19] r by simp
  moreover have "calculateExpectedUsage 16 55 = 55"
    using C2_expected_usage[of 16 55 19] f by (simp add: isNightTime_def)
  ultimately show ?thesis using n r by blast
qed

text \<open>
  C8: the probability tables of the controller are the step functions of the
  specification. calculateAdjustProbability of a magnitude is 0.90 above 5, 0.70 from 2
  to 5 and 0.60 otherwise; calculateDirectionProbability of \<open>diff = current - target\<close>
  is, under the target (\<open>diff < 0\<close>), 0.90, 0.80, 0.70, 0.65, 0.60, 0.55 for a magnitude
  above 50, above 20, above 10, above 5, from 2, below 2, and at or above the target
  0.10, 0.20, 0.30, 0.35, 0.40, 0.45 at the same thresholds. The controller passes
  \<open>\<bar>diff\<bar>\<close> to the first table.
\<close>

theorem C8_probability_tables:
  "calculateAdjustProbability magnitude = spec_adjust_probability magnitude
   \<and> calculateAdjustProbability (abs_float64 diff) = spec_adjust_probability \<bar>diff\<bar>
   \<and> calculateDirectionProbability diff expectedUsage = spec_direction_probability diff"
  by (simp add: calculateAdjustProbability_def spec_adjust_probability_def
      calculateDirectionProbability_def spec_direction_probability_def
      spec_under_target_def spec_over_target_def abs_float64_abs Let_def)

text \<open>
  C9: getPeakUsage takes the value of \<open>P\<close>, or of \<open>p\<close> when \<open>P\<close> is unset or empty.
  A missing value and a value that is not an integer give the default 40, an integer
  below 1 or above 100 gives 40, an integer from 1 to 4 is raised to 5, and an integer
  from 5 to 100 is returned as it is; the result is always between 5 and 100.
\<close>

theorem C9_peak_usage:
  "getPeakUsage env =
     (case Atoi (if Getenv env ''P'' = [] then Getenv env ''p'' else Getenv env ''P'') of
        None \<Rightarrow> 40
      | Some n \<Rightarrow> if n < 1 \<or> 100 < n then 40 else if n < 5 then 5 else n)
   \<and> 5 \<le> getPeakUsage env \<and> getPeakUsage env \<le> 100"
proof -
  have a: "getPeakUsage env =
     (case Atoi (if Getenv env ''P'' = [] then Getenv env ''p'' else Getenv env ''P'') of
        None \<Rightarrow> 40
      | Some n \<Rightarrow> if n < 1 \<or> 100 < n then 40 else if n < 5 then 5 else n)"
    by (simp add: getPeakUsage_def defaultPeakUsage_def minPeakUsage_def Let_def Atoi_empty
        split: option.split)
  have "5 \<le> getPeakUsage env \<and> getPeakUsage env \<le> 100"
    unfolding a by (simp split: option.split)
  with a show ?thesis by simp
qed

theorem C9_witness:
  "getPeakUsage Map.empty = 40
   \<and> getPeakUsage [''P'' \<mapsto> ''abc''] = 40
   \<and> getPeakUsage [''P'' \<mapsto> ''0''] = 40
   \<and> getPeakUsage [''P'' \<mapsto> ''101''] = 40
   \<and> getPeakUsage [''P'' \<mapsto> ''3''] = 5
   \<and> getPeakUsage [''p'' \<mapsto> ''77''] = 77
   \<and> getPeakUsage [''P'' \<mapsto> ''100''] = 100"
proof -
  have d: "Atoi ''abc'' = None" "Atoi ''0'' = Some 0" "Atoi ''101'' = Some 101"
    "Atoi ''3'' = Some 3" "Atoi ''77'' = Some 77" "Atoi ''100'' = Some 100"
    by (simp_all add: Atoi_def is_digit_def)
  show ?thesis
    using C9_peak_usage[of Map.empty] C9_peak_usage[of "[''P'' \<mapsto> ''abc'']"]
      C9_peak_usage[of "[''P'' \<mapsto> ''0'']"] C9_peak_usage[of "[''P'' \<mapsto> ''101'']"]
      C9_peak_usage[of "[''P'' \<mapsto> ''3'']"] C9_peak_usage[of "[''p'' \<mapsto> ''77'']"]
      C9_peak_usage[of "[''P'' \<mapsto> ''100'']"]
    by (simp add: Getenv_def d Atoi_empty)
qed

section \<open>Claims about the drift of the ceiling\<close>

text \<open>
  C5, as stated, fails: updatePeakUsage does not compare the new ceiling with the hard
  peak of 70. With the origin ceiling 100 and the draw 0.75 the sample is
  20 + 0.75 * 80 = 80, and the new ceiling is 80.
\<close>

theorem C5_counterexample:
  "\<not> peakUsage (updatePeakUsage
         \<lparr>peakUsageOrigin = 100, peakUsage = 100, cpuController = cpuController0,
          memoryController = memoryController0, randSource = (\<lambda>n. 3 / 4), randPos = 0,
          events = []\<rparr>) \<le> 70"
  by (simp add: updatePeakUsage_def Float64_def logEvent_def int_of_float64_def
      minPeakUsage_def f64_eval)

text \<open>
  C5 (amended): for every origin ceiling in [5, 100] and every draw in [0, 1), one drift
  update takes the \<open>float64\<close> sample \<open>minValue + draw * (maxValue - minValue)\<close>, which
  lies between \<open>minValue\<close>, the \<open>float64\<close> product of the origin and 0.2, and
  \<open>maxValue\<close>, the origin; it sets the current ceiling to the integer part of the
  sample, raised to the minimum usage 5. The new ceiling lies between 5 and the origin
  ceiling; the origin ceiling is unchanged and one value of the random source is used.
\<close>

theorem C5_drift_update:
  assumes "5 \<le> peakUsageOrigin w" "peakUsageOrigin w \<le> 100"
    and "0 \<le> randSource w (randPos w)" "randSource w (randPos w) < 1"
  shows "(let minValue = f64_mul (float64_of_int (peakUsageOrigin w)) (f64_lit (2 / 10));
              maxValue = float64_of_int (peakUsageOrigin w);
              newValue = f64_add minValue
                           (f64_mul (randSource w (randPos w)) (f64_sub maxValue minValue))
          in maxValue = of_int (peakUsageOrigin w)
             \<and> minValue \<le> newValue \<and> newValue \<le> maxValue
             \<and> peakUsage (updatePeakUsage w) = max 5 \<lfloor>newValue\<rfloor>)
         \<and> 5 \<le> peakUsage (updatePeakUsage w)
         \<and> peakUsage (updatePeakUsage w) \<le> peakUsageOrigin w
         \<and> peakUsageOrigin (updatePeakUsage w) = peakUsageOrigin w
         \<and> randPos (updatePeakUsage w) = Suc (randPos w)"
proof -
  define origin where "origin = peakUsageOrigin w"
  define r where "r = randSource w (randPos w)"
  define minValue where "minValue = f64_mul (float64_of_int origin) (f64_lit (2 / 10))"
  define maxValue where "maxValue = float64_of_int origin"
  define newValue where "newValue = f64_add minValue (f64_mul r (f64_sub maxValue minValue))"
  have ok: "drift_ok origin" using assms(1,2) unfolding origin_def by (rule drift_ok_all)
  then have mx: "maxValue = of_int origin" and m0: "0 \<le> minValue"
    unfolding drift_ok_def maxValue_def minValue_def Let_def by blast+
  have b: "minValue \<le> newValue" "newValue \<le> maxValue"
    using drift_sample_bounds[OF ok assms(3,4)[folded r_def]]
    unfolding newValue_def minValue_def maxValue_def by blast+
  have n0: "0 \<le> newValue" using m0 b(1) by linarith
  have fl: "\<lfloor>minValue\<rfloor> \<le> \<lfloor>newValue\<rfloor>" using b(1) by (rule floor_mono)
  have "\<lfloor>newValue\<rfloor> \<le> \<lfloor>real_of_int origin\<rfloor>" using b(2) unfolding mx by (rule floor_mono)
  then have fo: "\<lfloor>newValue\<rfloor> \<le> origin" by simp
  have i1: "int_of_float64 newValue = \<lfloor>newValue\<rfloor>"
    using n0 by (simp add: int_of_float64_def)
  have i2: "int_of_float64 minValue = \<lfloor>minValue\<rfloor>"
    using m0 by (simp add: int_of_float64_def)
  have "peakUsage (updatePeakUsage w) =
          (let p = int_of_float64 newValue;
               p = (if p < int_of_float64 minValue then int_of_float64 minValue else p)
           in if p < minPeakUsage then minPeakUsage else p)"
    unfolding peakUsage_updatePeakUsage newValue_def minValue_def maxValue_def origin_def
      r_def Let_def ..
  then have p: "peakUsage (updatePeakUsage w) = max 5 \<lfloor>newValue\<rfloor>"
    unfolding i1 i2 using fl by (simp add: Let_def minPeakUsage_def max_def)
  have q: "peakUsageOrigin (updatePeakUsage w) = peakUsageOrigin w"
    "randPos (updatePeakUsage w) = Suc (randPos w)"
    by (simp_all add: updatePeakUsage_def Float64_def logEvent_def Let_def)
  have "5 \<le> peakUsage (updatePeakUsage w)" "peakUsage (updatePeakUsage w) \<le> origin"
    unfolding p using fo assms(1) by (simp_all add: origin_def)
  with p q mx b show ?thesis
    unfolding Let_def origin_def r_def newValue_def minValue_def maxValue_def by simp
qed

theorem C5_witness:
  "peakUsage (updatePeakUsage
      \<lparr>peakUsageOrigin = 40, peakUsage = 40, cpuController = cpuController0,
       memoryController = memoryController0, randSource = (\<lambda>n. 1 / 2), randPos = 0,
       events = []\<rparr>) = 24
   \<and> 5 \<le> peakUsage (updatePeakUsage
      \<lparr>peakUsageOrigin = 40, peakUsage = 40, cpuController = cpuController0,
       memoryController = memoryController0, randSource = (\<lambda>n. 1 / 2), randPos = 0,
       events = []\<rparr>)
   \<and> peakUsage (updatePeakUsage
      \<lparr>peakUsageOrigin = 40, peakUsage = 40, cpuController = cpuController0,
       memoryController = memoryController0, randSource = (\<lambda>n. 1 / 2), randPos = 0,
       events = []\<rparr>) \<le> 40"
proof -
  let ?w = "\<lparr>peakUsageOrigin = 40, peakUsage = 40, cpuController = cpuController0,
       memoryController = memoryController0, randSource = (\<lambda>n. 1 / 2), randPos = 0,
       events = []\<rparr>"
  have a: "5 \<le> peakUsageOrigin ?w" "peakUsageOrigin ?w \<le> 100"
    "0 \<le> randSource ?w (randPos ?w)" "randSource ?w (randPos ?w) < 1"
    by simp_all
  note t = C5_drift_update[OF a]
  have lo: "5 \<le> peakUsage (updatePeakUsage ?w)"
    by (rule t[THEN conjunct2, THEN conjunct1])
  have "peakUsage (updatePeakUsage ?w) \<le> peakUsageOrigin ?w"
    by (rule t[THEN conjunct2, THEN conjunct2, THEN conjunct1])
  then have hi: "peakUsage (updatePeakUsage ?w) \<le> 40" by simp
  have v: "peakUsage (updatePeakUsage ?w) = 24"
    by (simp add: updatePeakUsage_def Float64_def logEvent_def int_of_float64_def
        minPeakUsage_def f64_eval)
  from v lo hi show ?thesis by blast
qed

end
